theory Spec2Isabelle
  imports Main
begin

section \<open>JavaScript values\<close>

text \<open>
  The primitive values that the fields of an item hold. A property that is absent reads as
  \<open>JUndefined\<close>, as it does in JavaScript. Numbers are integers (ids and counters);
  \<open>NaN\<close> and fractions are outside the model. A string is a sequence of code units, and
  the type holds the code units 0 to 255 (the Latin-1 range): text with other characters
  is outside the model.
\<close>

datatype jsval = JUndefined | JNull | JBool bool | JNum int | JStr string

text \<open>Truthiness, as used by \<open>||\<close>, \<open>&&\<close>, \<open>!\<close> and \<open>if\<close>.\<close>

fun truthy :: "jsval \<Rightarrow> bool" where
  "truthy JUndefined = False"
| "truthy JNull = False"
| "truthy (JBool b) = b"
| "truthy (JNum n) = (n \<noteq> 0)"
| "truthy (JStr s) = (s \<noteq> [])"

text \<open>\<open>a || b\<close>\<close>

definition js_or :: "jsval \<Rightarrow> jsval \<Rightarrow> jsval" where
  "js_or a b = (if truthy a then a else b)"

definition digit_char :: "nat \<Rightarrow> char" where
  "digit_char d = char_of (48 + d)"

function decimal :: "nat \<Rightarrow> string" where
  "decimal n = (if n < 10 then [digit_char n] else decimal (n div 10) @ [digit_char (n mod 10)])"
  by pat_completeness auto
termination
  by (relation "measure (\<lambda>n. n)") auto

text \<open>
  \<open>String(v)\<close>, also what a template literal does to an interpolated value. An integer is
  printed in plain decimal digits, which is what JavaScript does below \<open>10^21\<close> (from there
  on it prints an exponent form).
\<close>

fun js_String :: "jsval \<Rightarrow> string" where
  "js_String JUndefined = ''undefined''"
| "js_String JNull = ''null''"
| "js_String (JBool b) = (if b then ''true'' else ''false'')"
| "js_String (JNum n) = (if n < 0 then CHR ''-'' # decimal (nat (- n)) else decimal (nat n))"
| "js_String (JStr s) = s"

text \<open>
  \<open>s.toLowerCase()\<close>. The cased letters among the code units 0 to 255 are \<open>A\<close> to \<open>Z\<close>
  (65 to 90) and the accented capitals 192 to 214 and 216 to 222; each has its small
  letter 32 positions further, and every other code unit of the range is left as it is.
\<close>

definition lower_char :: "char \<Rightarrow> char" where
  "lower_char c =
     (let n = (of_char c :: nat)
      in if (65 \<le> n \<and> n \<le> 90) \<or> (192 \<le> n \<and> n \<le> 214) \<or> (216 \<le> n \<and> n \<le> 222)
         then char_of (n + 32) else c)"

definition toLowerCase :: "string \<Rightarrow> string" where
  "toLowerCase s = map lower_char s"

text \<open>
  \<open>s.trim()\<close> removes white space and line terminators at both ends. Among the code units
  0 to 255 these are tab, line feed, vertical tab, form feed, carriage return, space and
  the no-break space (160).
\<close>

definition is_space :: "char \<Rightarrow> bool" where
  "is_space c = ((of_char c :: nat) \<in> {9, 10, 11, 12, 13, 32, 160})"

definition trim :: "string \<Rightarrow> string" where
  "trim s = rev (dropWhile is_space (rev (dropWhile is_space s)))"


section \<open>Items and groups\<close>

text \<open>
  An item is an object with the properties \<open>id\<close>, \<open>text\<close>, \<open>disabled\<close>, \<open>selected\<close>,
  an optional array \<open>children\<close> (\<open>Some cs\<close> exactly when
  \<open>item.children && Array.isArray(item.children)\<close> holds: an empty array is truthy) and the
  caller's other properties, kept as an association list. The elements of \<open>children\<close> are
  objects again.
\<close>

datatype item = Item (item_id: jsval) (item_text: jsval) (item_disabled: jsval)
  (item_selected: jsval) (item_children: "item list option") (item_extra: "(string \<times> jsval) list")

text \<open>\<open>{...item, children: cs}\<close>\<close>

fun with_children :: "item \<Rightarrow> item list \<Rightarrow> item" where
  "with_children (Item i t d s _ ex) cs = Item i t d s (Some cs) ex"

text \<open>\<open>item[k] = v\<close> for a property \<open>k\<close> other than the five named ones.\<close>

fun assign :: "string \<Rightarrow> jsval \<Rightarrow> (string \<times> jsval) list \<Rightarrow> (string \<times> jsval) list" where
  "assign k v [] = [(k, v)]"
| "assign k v ((k', v') # ps) = (if k' = k then (k, v) # ps else (k', v') # assign k v ps)"

fun set_prop :: "string \<Rightarrow> jsval \<Rightarrow> item \<Rightarrow> item" where
  "set_prop k v (Item i t d s cs ex) = Item i t d s cs (assign k v ex)"

fun get_prop :: "string \<Rightarrow> item \<Rightarrow> jsval" where
  "get_prop k (Item i t d s cs ex) = (case map_of ex k of Some v \<Rightarrow> v | None \<Rightarrow> JUndefined)"

text \<open>
  \<open>DataAdapter._normalizeItem\<close>. The spread keeps every property; \<open>id\<close> falls back to the
  \<^emph>\<open>original\<close> \<open>item.text\<close>; \<open>text\<close>, \<open>disabled\<close> and \<open>selected\<close> get their defaults through
  \<open>||\<close>. The last statement of the source (\<open>normalized.element = item.element\<close>) re-assigns a
  property that the spread has already copied.
\<close>

fun normalizeItem :: "item \<Rightarrow> item" where
  "normalizeItem (Item i t d s cs ex) =
     Item (if i \<noteq> JUndefined then i else t) (js_or t (JStr [])) (js_or d (JBool False))
       (js_or s (JBool False)) (map_option (map normalizeItem) cs) ex"

text \<open>\<open>AjaxAdapter._normalizeItem\<close>, a second copy of the same code in the Remote Source.\<close>

fun ajax_normalizeItem :: "item \<Rightarrow> item" where
  "ajax_normalizeItem (Item i t d s cs ex) =
     Item (if i \<noteq> JUndefined then i else t) (js_or t (JStr [])) (js_or d (JBool False))
       (js_or s (JBool False)) (map_option (map ajax_normalizeItem) cs) ex"

text \<open>An item, and every child below it, has an \<open>id\<close> or a \<open>text\<close> that is not \<open>undefined\<close>.\<close>

fun keyed :: "item \<Rightarrow> bool" where
  "keyed (Item i t d s cs ex) =
     ((i \<noteq> JUndefined \<or> t \<noteq> JUndefined) \<and>
      (case cs of None \<Rightarrow> True | Some xs \<Rightarrow> list_all keyed xs))"


section \<open>Events\<close>

datatype selected_value = Ids "jsval list" | Single jsval

record response =
  resp_results :: "item list"
  resp_more :: jsval

text \<open>
  What a promise is rejected with, or a handler throws: \<open>null\<close>/\<open>undefined\<close>, or a value
  whose property \<open>name\<close> reads as \<open>err_name\<close>.
\<close>

datatype thrown = ThrownNullish | Thrown (err_name: jsval)

datatype event =
    SELECT item
  | UNSELECT item
  | CHANGE selected_value
  | SELECTION_LIMIT_REACHED int string
  | DATA_LOADED "item list"
  | RESULTS "item list"
  | AJAX_LOADING string int
  | AJAX_SUCCESS response string int
  | AJAX_ERROR thrown string int

text \<open>
  \<open>emit\<close> publishes on the instance's bus, \<open>trigger\<close> dispatches a DOM event on the host
  element, and \<open>_updateElement\<close> dispatches the native \<open>change\<close>. The bus runs each listener
  inside \<open>try\<close>/\<open>catch\<close>, so an emission never throws; the log records what was sent.
\<close>

datatype signal = Emit event | Trigger event | NativeChange


section \<open>State and options\<close>

record request =
  req_token :: nat
  req_term :: string
  req_page :: int
  req_append :: bool

text \<open>
  The fields of the adapters of one widget instance: \<open>data\<close> and \<open>selection\<close>
  (\<open>DataAdapter\<close>); \<open>results\<close>, \<open>flatResults\<close> and \<open>highlightedIndex\<close> (\<open>ResultsList\<close>);
  the query state of \<open>ResultsAdapter\<close>. A \<open>Symbol("search")\<close> is a fresh identity: the
  tokens are drawn from the counter \<open>nextSymbol\<close>. \<open>loadMoreTimeout\<close> tells whether the
  500 ms timer of \<open>loadMore\<close> is pending.
\<close>

record widget =
  data :: "item list"
  selection :: "item list"
  results :: "item list"
  flatResults :: "item list"
  highlightedIndex :: int
  currentSearchTerm :: string
  currentPage :: int
  hasMore :: bool
  isLoadingMore :: bool
  accumulatedResults :: "item list"
  currentSearchToken :: "nat option"
  nextSymbol :: nat
  loadMoreTimeout :: bool
  emitted :: "signal list"

record options =
  multiple :: bool
  maximumSelectionLength :: int
  maximumSelected :: "(int \<Rightarrow> string) option"
  tags :: bool
  ajax :: bool

text \<open>The state the constructors of the adapters set up.\<close>

definition init :: widget where
  "init = \<lparr>data = [], selection = [], results = [], flatResults = [], highlightedIndex = - 1,
     currentSearchTerm = [], currentPage = 1, hasMore = False, isLoadingMore = False,
     accumulatedResults = [], currentSearchToken = None, nextSymbol = 0,
     loadMoreTimeout = False, emitted = []\<rparr>"

definition emit :: "event \<Rightarrow> widget \<Rightarrow> widget" where
  "emit e w = w\<lparr>emitted := emitted w @ [Emit e]\<rparr>"

definition trigger :: "event \<Rightarrow> widget \<Rightarrow> widget" where
  "trigger e w = w\<lparr>emitted := emitted w @ [Trigger e]\<rparr>"


section \<open>Item Store: \<open>DataAdapter\<close>\<close>

definition setData :: "item list \<Rightarrow> widget \<Rightarrow> widget" where
  "setData d w = (let w1 = w\<lparr>data := map normalizeItem d\<rparr> in emit (DATA_LOADED (data w1)) w1)"

definition query :: "widget \<Rightarrow> item list" where
  "query w = data w"

definition current :: "widget \<Rightarrow> item list" where
  "current w = selection w"

definition getValue :: "options \<Rightarrow> widget \<Rightarrow> selected_value" where
  "getValue opts w =
     (if multiple opts then Ids (map item_id (selection w))
      else Single (case selection w of [] \<Rightarrow> JNull | x # _ \<Rightarrow> item_id x))"

text \<open>
  \<open>_updateElement\<close> writes the selected flags of the host element's options and dispatches
  the native \<open>change\<close>; of the host element only that dispatch is recorded.
\<close>

definition updateElement :: "widget \<Rightarrow> widget" where
  "updateElement w = w\<lparr>emitted := emitted w @ [NativeChange]\<rparr>"

definition limit_message :: "options \<Rightarrow> int \<Rightarrow> string" where
  "limit_message opts n =
     (case maximumSelected opts of
        Some f \<Rightarrow> f n
      | None \<Rightarrow> ''You can only select '' @ js_String (JNum n) @ '' items'')"

text \<open>The tail of \<open>select\<close> after the selection has been written.\<close>

definition selected_ok :: "options \<Rightarrow> item \<Rightarrow> widget \<Rightarrow> bool \<times> widget" where
  "selected_ok opts d w =
     (let w1 = updateElement w;
          w2 = emit (SELECT d) w1;
          w3 = emit (CHANGE (getValue opts w2)) w2;
          w4 = trigger (SELECT d) w3;
          w5 = trigger (CHANGE (getValue opts w4)) w4
      in (True, w5))"

text \<open>
  \<open>DataAdapter.select\<close>. The test for an id that is already selected is the strict
  \<open>item.id === data.id\<close>; on the primitive values of the model that is equality.
\<close>

definition select :: "options \<Rightarrow> item \<Rightarrow> widget \<Rightarrow> bool \<times> widget" where
  "select opts d w =
     (if \<not> multiple opts then selected_ok opts d (w\<lparr>selection := [d]\<rparr>)
      else
        (let exists = list_ex (\<lambda>item. item_id item = item_id d) (selection w) in
         if \<not> exists then
           (if maximumSelectionLength opts > 0
               \<and> int (length (selection w)) \<ge> maximumSelectionLength opts
            then
              (let message = limit_message opts (maximumSelectionLength opts);
                   w1 = emit (SELECTION_LIMIT_REACHED (maximumSelectionLength opts) message) w;
                   w2 = trigger (SELECTION_LIMIT_REACHED (maximumSelectionLength opts) message) w1
               in (False, w2))
            else selected_ok opts d (w\<lparr>selection := selection w @ [d]\<rparr>))
         else (False, w)))"





text \<open>Identity of ids under string normalisation: \<open>String(a) === String(b)\<close>.\<close>

definition same_id :: "jsval \<Rightarrow> jsval \<Rightarrow> bool" where
  "same_id a b = (js_String a = js_String b)"


section \<open>Text Matcher: \<open>SearchManager.search\<close>\<close>

text \<open>
  The matcher is the predicate the manager was set up with (the default one or the
  caller's); \<open>search\<close> uses it as a black box. \<open>forEach\<close> with \<open>results.push\<close> is a left
  fold that appends.
\<close>

definition search_step :: "(string \<Rightarrow> item \<Rightarrow> bool) \<Rightarrow> string \<Rightarrow> item list \<Rightarrow> item \<Rightarrow> item list" where
  "search_step matcher term acc item =
     (case item_children item of
        Some cs \<Rightarrow>
          (let filteredChildren = filter (matcher term) cs in
           if length filteredChildren > 0 then acc @ [with_children item filteredChildren]
           else acc)
      | None \<Rightarrow> if matcher term item then acc @ [item] else acc)"

definition search :: "(string \<Rightarrow> item \<Rightarrow> bool) \<Rightarrow> item list \<Rightarrow> string \<Rightarrow> item list" where
  "search matcher items term =
     (if term = [] \<or> trim term = [] then items
      else foldl (search_step matcher term) [] items)"

text \<open>
  The filtering as the specification words it: a group is kept when at least one child
  matches, and then carries its matching children; another item is kept when it matches.
\<close>

definition keep :: "(string \<Rightarrow> item \<Rightarrow> bool) \<Rightarrow> string \<Rightarrow> item \<Rightarrow> item list" where
  "keep matcher term item =
     (case item_children item of
        Some cs \<Rightarrow>
          if \<exists>c \<in> set cs. matcher term c
          then [with_children item (filter (matcher term) cs)] else []
      | None \<Rightarrow> if matcher term item then [item] else [])"

definition search_spec :: "(string \<Rightarrow> item \<Rightarrow> bool) \<Rightarrow> item list \<Rightarrow> string \<Rightarrow> item list" where
  "search_spec matcher items term = concat (map (keep matcher term) items)"

text \<open>Replacing the label of an entry (its \<open>text\<close>), with the children untouched.\<close>

fun relabel :: "jsval \<Rightarrow> item \<Rightarrow> item" where
  "relabel l (Item i t d s cs ex) = Item i l d s cs ex"

text \<open>Replacing the label of the groups of a list only.\<close>

definition relabel_group :: "jsval \<Rightarrow> item \<Rightarrow> item" where
  "relabel_group l it = (case item_children it of Some _ \<Rightarrow> relabel l it | None \<Rightarrow> it)"

text \<open>A caller's matcher that compares the text with the term, character by character.\<close>

definition exact_text :: "string \<Rightarrow> item \<Rightarrow> bool" where
  "exact_text term item = (item_text item = JStr term)"


section \<open>List Presenter: \<open>ResultsList\<close>\<close>

text \<open>The rendered list: the children of each group in turn, the other entries as they are.\<close>

definition getFlatRenderedItems :: "item list \<Rightarrow> item list" where
  "getFlatRenderedItems items =
     foldl (\<lambda>flat item. case item_children item of Some cs \<Rightarrow> flat @ cs | None \<Rightarrow> flat @ [item])
       [] items"

definition countTotalItems :: "item list \<Rightarrow> nat" where
  "countTotalItems items =
     foldl (\<lambda>count item. case item_children item of Some cs \<Rightarrow> count + length cs | None \<Rightarrow> count + 1)
       0 items"

text \<open>\<open>ResultsList.update\<close>\<close>

definition updateResults :: "item list \<Rightarrow> widget \<Rightarrow> widget" where
  "updateResults rs w =
     w\<lparr>results := rs, flatResults := getFlatRenderedItems rs, highlightedIndex := - 1\<rparr>"

text \<open>\<open>ResultsList.highlight\<close>: an index outside the rendered list is ignored.\<close>

definition highlight :: "int \<Rightarrow> widget \<Rightarrow> widget" where
  "highlight index w =
     (if index < 0 \<or> index \<ge> int (length (flatResults w)) then w
      else w\<lparr>highlightedIndex := index\<rparr>)"


section \<open>Query Coordinator: \<open>ResultsAdapter\<close>\<close>

definition getFlatIndexForGroupChild :: "item list \<Rightarrow> nat \<Rightarrow> nat \<Rightarrow> nat" where
  "getFlatIndexForGroupChild rs groupIndex childIndex =
     foldl (\<lambda>flatIndex r. case item_children r of Some cs \<Rightarrow> flatIndex + length cs
                                                | None \<Rightarrow> flatIndex + 1)
       0 (take groupIndex rs) + childIndex"

fun firstEnabled :: "nat \<Rightarrow> item list \<Rightarrow> nat option" where
  "firstEnabled j [] = None"
| "firstEnabled j (c # cs) = (if \<not> truthy (item_disabled c) then Some j else firstEnabled (Suc j) cs)"

text \<open>
  The loop of \<open>_autoHighlightFirst\<close> from entry \<open>i\<close> on: the index it highlights, if any.
  For an entry that is not a group the source passes the entry's own index \<open>i\<close>.
\<close>

fun autoHighlightFrom :: "item list \<Rightarrow> nat \<Rightarrow> item list \<Rightarrow> nat option" where
  "autoHighlightFrom rs i [] = None"
| "autoHighlightFrom rs i (item # rest) =
     (case item_children item of
        Some cs \<Rightarrow>
          (case firstEnabled 0 cs of
             Some j \<Rightarrow> Some (getFlatIndexForGroupChild rs i j)
           | None \<Rightarrow> autoHighlightFrom rs (Suc i) rest)
      | None \<Rightarrow>
          if \<not> truthy (item_disabled item) then Some i else autoHighlightFrom rs (Suc i) rest)"

definition autoHighlightFirst :: "item list \<Rightarrow> widget \<Rightarrow> widget" where
  "autoHighlightFirst rs w =
     (case autoHighlightFrom rs 0 rs of Some k \<Rightarrow> highlight (int k) w | None \<Rightarrow> w)"

subsection \<open>Local mode and tagging\<close>

text \<open>
  \<open>createTag\<close> makes a fresh object, and \<open>insertTag(filteredResults, tag)\<close> writes into the
  copied array before \<open>tag._isTag = true\<close> runs. An element of the array after the call is
  either a value (\<open>Entry\<close>: one of the old entries, or whatever the callback built) or the
  reference to the tag object (\<open>TagRef\<close>), which shows every later write to that object.
\<close>

datatype slot = Entry item | TagRef

definition resolve :: "item \<Rightarrow> slot \<Rightarrow> item" where
  "resolve tag sl = (case sl of Entry x \<Rightarrow> x | TagRef \<Rightarrow> tag)"

text \<open>The defaults of the options: \<open>DEFAULTS.createTag\<close> and \<open>DEFAULTS.insertTag\<close>.\<close>

definition default_createTag :: "string \<Rightarrow> item option" where
  "default_createTag term0 =
     (let term = trim term0 in
      if term = [] then None
      else Some (Item (JStr term) (JStr term) JUndefined JUndefined None []))"

definition default_insertTag :: "slot list \<Rightarrow> item \<Rightarrow> slot list" where
  "default_insertTag d tag = TagRef # d"

text \<open>The result list that \<open>_updateWithLocalData\<close> hands to the presenter.\<close>

definition localResults ::
  "options \<Rightarrow> (string \<Rightarrow> item \<Rightarrow> bool) \<Rightarrow> (string \<Rightarrow> item option) \<Rightarrow> (slot list \<Rightarrow> item \<Rightarrow> slot list)
     \<Rightarrow> item list \<Rightarrow> string \<Rightarrow> item list" where
  "localResults opts matcher createTag insertTag allData term =
     (let filteredResults = search matcher allData term in
      if tags opts \<and> term \<noteq> [] \<and> trim term \<noteq> [] then
        (case createTag (trim term) of
           None \<Rightarrow> filteredResults
         | Some tag \<Rightarrow>
             (let tagExists = list_ex (\<lambda>item. toLowerCase (js_String (item_id item))
                                           = toLowerCase (js_String (item_id tag))) filteredResults
              in if \<not> tagExists then
                   (let inserted = insertTag (map Entry filteredResults) tag;
                        tag' = set_prop ''_isTag'' (JBool True) tag
                    in map (resolve tag') inserted)
                 else filteredResults))
      else filteredResults)"

definition updateWithLocalData ::
  "options \<Rightarrow> (string \<Rightarrow> item \<Rightarrow> bool) \<Rightarrow> (string \<Rightarrow> item option) \<Rightarrow> (slot list \<Rightarrow> item \<Rightarrow> slot list)
     \<Rightarrow> string \<Rightarrow> widget \<Rightarrow> widget" where
  "updateWithLocalData opts matcher createTag insertTag term w =
     (let w1 = w\<lparr>currentSearchTerm := term\<rparr>;
          allData = query w1;
          filteredResults = localResults opts matcher createTag insertTag allData term;
          w2 = updateResults filteredResults w1;
          w3 = (if filteredResults \<noteq> [] then autoHighlightFirst filteredResults w2 else w2)
      in emit (RESULTS filteredResults) w3)"

subsection \<open>Remote mode\<close>

text \<open>
  The synchronous part of \<open>_updateWithAjax\<close>: it resets the pagination when the term
  differs, draws a fresh token and dispatches the request. The returned record is what
  the two callbacks close over (\<open>searchToken\<close>, \<open>append\<close>) and what the Remote Source is
  asked for (\<open>term\<close> and the page read at that moment).
\<close>

definition updateWithAjax :: "string \<Rightarrow> bool \<Rightarrow> widget \<Rightarrow> request \<times> widget" where
  "updateWithAjax term append0 w =
     (let changed = (term \<noteq> currentSearchTerm w);
          w1 = (if changed then w\<lparr>currentPage := 1, accumulatedResults := []\<rparr> else w);
          append = (if changed then False else append0);
          w2 = w1\<lparr>currentSearchTerm := term\<rparr>;
          searchToken = nextSymbol w2;
          w3 = w2\<lparr>currentSearchToken := Some searchToken, nextSymbol := Suc searchToken\<rparr>
      in (\<lparr>req_token = searchToken, req_term = term, req_page = currentPage w3,
           req_append = append\<rparr>, w3))"

text \<open>
  The \<open>then\<close> callback of \<open>_updateWithAjax\<close>, run when the Remote Source's promise for
  request \<open>req\<close> resolves with \<open>r\<close>. \<open>this.currentPage\<close> is read when the callback runs.
\<close>

definition onResponse :: "request \<Rightarrow> response \<Rightarrow> widget \<Rightarrow> widget" where
  "onResponse req r w =
     (if currentSearchToken w \<noteq> Some (req_token req) then w
      else
        (let w1 = w\<lparr>hasMore := truthy (resp_more r)\<rparr>;
             acc = (if req_append req \<and> currentPage w1 > 1
                    then accumulatedResults w1 @ resp_results r else resp_results r);
             w2 = w1\<lparr>accumulatedResults := acc\<rparr>;
             w3 = setData acc w2;
             w4 = updateResults acc w3;
             w5 = (if acc \<noteq> [] \<and> \<not> req_append req then autoHighlightFirst acc w4 else w4)
         in emit (RESULTS acc) w5))"


text \<open>
  \<open>update(term)\<close>: the remote path when an \<open>AjaxAdapter\<close> is bound (option \<open>ajax\<close>), the
  local path otherwise. The request is returned when one was dispatched.
\<close>

definition update ::
  "options \<Rightarrow> (string \<Rightarrow> item \<Rightarrow> bool) \<Rightarrow> (string \<Rightarrow> item option) \<Rightarrow> (slot list \<Rightarrow> item \<Rightarrow> slot list)
     \<Rightarrow> string \<Rightarrow> widget \<Rightarrow> request option \<times> widget" where
  "update opts matcher createTag insertTag term w =
     (if ajax opts then (let (req, w') = updateWithAjax term False w in (Some req, w'))
      else (None, updateWithLocalData opts matcher createTag insertTag term w))"

text \<open>\<open>loadMore\<close>, the 500 ms timer it starts, and the scroll handler in front of it.\<close>

definition loadMore :: "options \<Rightarrow> widget \<Rightarrow> request option \<times> widget" where
  "loadMore opts w =
     (if \<not> ajax opts \<or> \<not> hasMore w \<or> isLoadingMore w then (None, w)
      else
        (let w1 = w\<lparr>isLoadingMore := True, currentPage := currentPage w + 1\<rparr>;
             (req, w2) = updateWithAjax (currentSearchTerm w1) True w1
         in (Some req, w2\<lparr>loadMoreTimeout := True\<rparr>)))"

definition loadMoreTimeoutFires :: "widget \<Rightarrow> widget" where
  "loadMoreTimeoutFires w =
     (if loadMoreTimeout w then w\<lparr>isLoadingMore := False, loadMoreTimeout := False\<rparr> else w)"

definition handleScroll :: "options \<Rightarrow> bool \<Rightarrow> widget \<Rightarrow> request option \<times> widget" where
  "handleScroll opts nearBottom w =
     (if \<not> ajax opts \<or> \<not> hasMore w \<or> isLoadingMore w then (None, w)
      else if nearBottom then loadMore opts w else (None, w))"


section \<open>Navigation Controller: \<open>KeyboardManager._navigate\<close>\<close>

definition wrapAround :: "int \<Rightarrow> int \<Rightarrow> int" where
  "wrapAround totalResults newIndex =
     (if newIndex < 0 then totalResults - 1
      else if newIndex \<ge> totalResults then 0 else newIndex)"

text \<open>\<open>renderedItems[newIndex]?.disabled\<close>: outside the array the element is \<open>undefined\<close>.\<close>

definition disabledAt :: "item list \<Rightarrow> int \<Rightarrow> bool" where
  "disabledAt renderedItems newIndex =
     (0 \<le> newIndex \<and> newIndex < int (length renderedItems)
      \<and> truthy (item_disabled (renderedItems ! nat newIndex)))"

text \<open>
  The \<open>while\<close> loop that skips disabled entries. It leaves by \<open>return\<close> (\<open>Return\<close>) or by
  its condition (\<open>Exit\<close>, with the index reached); \<open>None\<close> is the loop that never ends.
\<close>

datatype nav = Return | Exit int

partial_function (option) skipDisabled :: "item list \<Rightarrow> int \<Rightarrow> int \<Rightarrow> int \<Rightarrow> int \<Rightarrow> nav option" where
  "skipDisabled renderedItems totalResults direction currentIndex newIndex =
     (if disabledAt renderedItems newIndex then
        (if wrapAround totalResults (newIndex + direction) = currentIndex then Some Return
         else skipDisabled renderedItems totalResults direction currentIndex
                (wrapAround totalResults (newIndex + direction)))
      else Some (Exit newIndex))"

definition navigate :: "int \<Rightarrow> widget \<Rightarrow> widget option" where
  "navigate direction w =
     (let currentIndex = highlightedIndex w;
          totalResults = int (countTotalItems (results w))
      in if totalResults = 0 then Some w
         else
           (let newIndex = wrapAround totalResults (currentIndex + direction);
                renderedItems = getFlatRenderedItems (results w)
            in case skipDisabled renderedItems totalResults direction currentIndex newIndex of
                 None \<Rightarrow> None
               | Some Return \<Rightarrow> Some w
               | Some (Exit k) \<Rightarrow> Some (highlight k w)))"


text \<open>
  The situation in which the loop is entered with every rendered entry disabled and the
  highlight index outside the list (\<open>- 1\<close>: nothing highlighted), at a position inside it.
\<close>

definition stuck :: "item list \<Rightarrow> int \<Rightarrow> int \<Rightarrow> int \<Rightarrow> bool" where
  "stuck renderedItems totalResults currentIndex newIndex =
     (totalResults = int (length renderedItems) \<and> 0 < totalResults
      \<and> list_all (\<lambda>x. truthy (item_disabled x)) renderedItems
      \<and> (currentIndex < 0 \<or> totalResults \<le> currentIndex)
      \<and> 0 \<le> newIndex \<and> newIndex < totalResults)"


section \<open>Remote Source: \<open>AjaxAdapter.query\<close>\<close>

text \<open>
  A promise is settled: fulfilled with a value, or rejected with what was thrown. The
  promise a transport returns may or may not carry the method \<open>abort\<close> that the default
  transport attaches.
\<close>

datatype 'a settled = Fulfilled 'a | Rejected thrown

datatype promise = Promise (has_abort: bool)

record remote =
  currentRequest :: "promise option"
  cache :: "((string \<times> int) \<times> response) list"
  aborts :: nat
  sent :: "signal list"

text \<open>
  What the caller's \<open>processResults\<close> returns: \<open>p_results\<close> is \<open>Some\<close> when \<open>results\<close> is an
  array; \<open>p_pagination\<close> is \<open>None\<close> when \<open>pagination\<close> is falsy and otherwise holds what its
  property \<open>more\<close> reads as.
\<close>

record processed =
  p_results :: "item list option"
  p_pagination :: "jsval option"

definition announce :: "event \<Rightarrow> remote \<Rightarrow> remote" where
  "announce e a = a\<lparr>sent := sent a @ [Emit e, Trigger e]\<rparr>"

definition empty_response :: response where
  "empty_response = \<lparr>resp_results = [], resp_more = JBool False\<rparr>"

definition TypeError :: thrown where
  "TypeError = Thrown (JStr ''TypeError'')"

text \<open>\<open>p.then(f)\<close> and \<open>p.catch(g)\<close>, the callbacks threading the adapter's state.\<close>

definition promise_then :: "('a \<Rightarrow> 's \<Rightarrow> (thrown + 'b) \<times> 's) \<Rightarrow> 'a settled \<times> 's \<Rightarrow> 'b settled \<times> 's" where
  "promise_then f p =
     (case p of
        (Fulfilled v, s) \<Rightarrow>
          (case f v s of (Inr b, s') \<Rightarrow> (Fulfilled b, s') | (Inl e, s') \<Rightarrow> (Rejected e, s'))
      | (Rejected e, s) \<Rightarrow> (Rejected e, s))"

definition promise_catch :: "(thrown \<Rightarrow> 's \<Rightarrow> (thrown + 'b) \<times> 's) \<Rightarrow> 'b settled \<times> 's \<Rightarrow> 'b settled \<times> 's" where
  "promise_catch g p =
     (case p of
        (Fulfilled v, s) \<Rightarrow> (Fulfilled v, s)
      | (Rejected e, s) \<Rightarrow>
          (case g e s of (Inr b, s') \<Rightarrow> (Fulfilled b, s') | (Inl e', s') \<Rightarrow> (Rejected e', s')))"

text \<open>
  The synchronous part of \<open>query\<close>, up to the call of the transport, which returns the
  promise \<open>p\<close>. \<open>Inr (Some r)\<close> is the cache hit (\<open>Promise.resolve\<close> of the cached value),
  \<open>Inr None\<close> a request that is now in flight, \<open>Inl\<close> an exception thrown by \<open>query\<close>
  itself: calling \<open>abort\<close> on a pending promise that has no such method.
\<close>

definition query_dispatch ::
  "bool \<Rightarrow> promise \<Rightarrow> string \<Rightarrow> int \<Rightarrow> remote \<Rightarrow> (thrown + response option) \<times> remote" where
  "query_dispatch use_cache p term page a =
     (case (if use_cache then map_of (cache a) (term, page) else None) of
        Some cached \<Rightarrow> (Inr (Some cached), a)
      | None \<Rightarrow>
          (case currentRequest a of
             Some prev \<Rightarrow>
               if has_abort prev
               then (Inr None, (announce (AJAX_LOADING term page) (a\<lparr>aborts := Suc (aborts a)\<rparr>))
                                 \<lparr>currentRequest := Some p\<rparr>)
               else (Inl TypeError, a)
           | None \<Rightarrow> (Inr None, (announce (AJAX_LOADING term page) a)\<lparr>currentRequest := Some p\<rparr>)))"

text \<open>The \<open>then\<close> callback of \<open>query\<close>; \<open>processResults\<close> is the caller's and may throw.\<close>

definition onFulfilled ::
  "bool \<Rightarrow> ('r \<Rightarrow> thrown + processed option) \<Rightarrow> string \<Rightarrow> int \<Rightarrow> 'r \<Rightarrow> remote
     \<Rightarrow> (thrown + response) \<times> remote" where
  "onFulfilled use_cache processResults term page raw a =
     (let a1 = a\<lparr>currentRequest := None\<rparr> in
      case processResults raw of
        Inl e \<Rightarrow> (Inl e, a1)
      | Inr None \<Rightarrow> (Inl TypeError, a1)
      | Inr (Some pr) \<Rightarrow>
          (let normalizedResults =
                 \<lparr>resp_results = (case p_results pr of Some xs \<Rightarrow> map ajax_normalizeItem xs
                                                       | None \<Rightarrow> []),
                  resp_more = (case p_pagination pr of Some m \<Rightarrow> m | None \<Rightarrow> JBool False)\<rparr>;
               a2 = (if use_cache
                     then a1\<lparr>cache := ((term, page), normalizedResults) # cache a1\<rparr> else a1)
           in (Inr normalizedResults, announce (AJAX_SUCCESS normalizedResults term page) a2)))"

text \<open>
  The \<open>catch\<close> callback of \<open>query\<close>. Reading \<open>error.name\<close> of \<open>null\<close> or \<open>undefined\<close>
  throws a \<open>TypeError\<close>.
\<close>

definition onRejected :: "string \<Rightarrow> int \<Rightarrow> thrown \<Rightarrow> remote \<Rightarrow> (thrown + response) \<times> remote" where
  "onRejected term page error a =
     (let a1 = a\<lparr>currentRequest := None\<rparr> in
      case error of
        ThrownNullish \<Rightarrow> (Inl TypeError, a1)
      | Thrown n \<Rightarrow>
          (Inr empty_response,
           if n \<noteq> JStr ''AbortError'' then announce (AJAX_ERROR error term page) a1 else a1))"

text \<open>The promise \<open>query\<close> returns for a dispatched request whose transport settles as \<open>outcome\<close>.\<close>

definition query_settle ::
  "bool \<Rightarrow> ('r \<Rightarrow> thrown + processed option) \<Rightarrow> string \<Rightarrow> int \<Rightarrow> 'r settled \<Rightarrow> remote
     \<Rightarrow> response settled \<times> remote" where
  "query_settle use_cache processResults term page outcome a =
     promise_catch (onRejected term page)
       (promise_then (onFulfilled use_cache processResults term page) (outcome, a))"


section \<open>Sample data\<close>

text \<open>Items, options and states used to run the operations on concrete inputs.\<close>

definition it1 :: item where
  "it1 = Item (JNum 1) (JStr ''a'') (JBool False) (JBool False) None []"

definition it2 :: item where
  "it2 = Item (JNum 2) (JStr ''b'') (JBool False) (JBool False) None []"

definition it3 :: item where
  "it3 = Item (JNum 3) (JStr ''c'') (JBool False) (JBool False) None []"



definition multi_unlimited :: options where
  "multi_unlimited = \<lparr>multiple = True, maximumSelectionLength = 0, maximumSelected = None,
     tags = False, ajax = False\<rparr>"

definition remote_opts :: options where
  "remote_opts = \<lparr>multiple = False, maximumSelectionLength = 0, maximumSelected = None,
     tags = False, ajax = True\<rparr>"

text \<open>The same logical id once as a string (an option of the host element) and once as a number.\<close>

definition one_str :: item where
  "one_str = Item (JStr ''1'') (JStr ''One'') (JBool False) (JBool False) None []"

definition one_num :: item where
  "one_num = Item (JNum 1) (JStr ''One'') (JBool False) (JBool False) None []"




text \<open>
  Three pages of one term, and the states of a run in which page 1 is shown, page 2 is
  asked for, the timer of \<open>loadMore\<close> fires while page 2 is still outstanding, and page 3
  is asked for.
\<close>

definition page_one :: response where
  "page_one = \<lparr>resp_results = [it1], resp_more = JBool True\<rparr>"

definition page_two :: response where
  "page_two = \<lparr>resp_results = [it2], resp_more = JBool True\<rparr>"

definition page_three :: response where
  "page_three = \<lparr>resp_results = [it3], resp_more = JBool False\<rparr>"

definition shown_page_one :: widget where
  "shown_page_one = onResponse (fst (updateWithAjax ''x'' False init)) page_one
     (snd (updateWithAjax ''x'' False init))"

definition asked_page_two :: widget where
  "asked_page_two = snd (loadMore remote_opts shown_page_one)"

definition timer_fired :: widget where
  "timer_fired = loadMoreTimeoutFires asked_page_two"

definition asked_page_three :: widget where
  "asked_page_three = snd (loadMore remote_opts timer_fired)"

text \<open>Two groups: one with the children \<open>A\<close> and \<open>B\<close>, one with the child \<open>C\<close>.\<close>

definition child_A :: item where
  "child_A = Item (JStr ''a'') (JStr ''A'') (JBool False) (JBool False) None []"

definition child_B :: item where
  "child_B = Item (JStr ''b'') (JStr ''B'') (JBool False) (JBool False) None []"

definition child_C :: item where
  "child_C = Item (JStr ''c'') (JStr ''C'') (JBool False) (JBool False) None []"

definition group_AB :: item where
  "group_AB = Item (JStr ''g1'') (JStr ''A'') (JBool False) (JBool False) (Some [child_A, child_B]) []"

definition group_C :: item where
  "group_C = Item (JStr ''g2'') (JStr ''A'') (JBool False) (JBool False) (Some [child_C]) []"

text \<open>
  Tagging: an item whose text is \<open>new\<close> under another id, an item whose id is \<open>NEW\<close>, and
  the tag the default factory makes of the term \<open>new\<close>.
\<close>

definition tag_opts :: options where
  "tag_opts = \<lparr>multiple = True, maximumSelectionLength = 0, maximumSelected = None,
     tags = True, ajax = False\<rparr>"

definition item_x :: item where
  "item_x = Item (JStr ''x'') (JStr ''new'') (JBool False) (JBool False) None []"

definition item_NEW :: item where
  "item_NEW = Item (JStr ''NEW'') (JStr ''new'') (JBool False) (JBool False) None []"

definition tag_new :: item where
  "tag_new = Item (JStr ''new'') (JStr ''new'') JUndefined JUndefined None []"

text \<open>
  Grouped data: a group whose child has the id \<open>new\<close>, and a group given without an id and
  labelled \<open>new\<close>, whose only child has the id \<open>x\<close>.
\<close>

definition child_new :: item where
  "child_new = Item (JStr ''new'') (JStr ''new'') (JBool False) (JBool False) None []"

definition group_of_new :: item where
  "group_of_new = Item (JStr ''g1'') (JStr ''Words'') (JBool False) (JBool False)
     (Some [child_new]) []"

definition group_labelled_new :: item where
  "group_labelled_new = Item JUndefined (JStr ''new'') JUndefined JUndefined (Some [item_x]) []"


text \<open>A list whose only entry is disabled, just rendered: nothing is highlighted.\<close>

definition disabled_a :: item where
  "disabled_a = Item (JNum 1) (JStr ''a'') (JBool True) (JBool False) None []"

definition all_disabled :: widget where
  "all_disabled = updateResults [disabled_a] init"

text \<open>
  A Remote Source with one request in flight, and a \<open>processResults\<close> that returns an
  empty page.
\<close>

definition no_results :: "unit \<Rightarrow> thrown + processed option" where
  "no_results raw = Inr (Some \<lparr>p_results = Some [], p_pagination = None\<rparr>)"

definition in_flight :: remote where
  "in_flight = \<lparr>currentRequest = Some (Promise True), cache = [], aborts = 0, sent = []\<rparr>"



section \<open>Properties of item normalisation\<close>

lemma js_or_absorb: "js_or (js_or a b) b = js_or a b"
  by (simp add: js_or_def)

lemma ajax_normalizeItem_eq: "ajax_normalizeItem it = normalizeItem it"
proof (induction it rule: normalizeItem.induct)
  case (1 i t d s cs ex)
  then show ?case by (cases cs) auto
qed

lemma normalizeItem_fixed_iff: "normalizeItem (normalizeItem it) = normalizeItem it \<longleftrightarrow> keyed it"
proof (induction it rule: normalizeItem.induct)
  case (1 i t d s cs ex)
  show ?case
  proof (cases cs)
    case None
    then show ?thesis by (auto simp: js_or_absorb js_or_def)
  next
    case (Some xs)
    with 1 have "\<forall>x\<in>set xs. (normalizeItem (normalizeItem x) = normalizeItem x) = keyed x"
      by auto
    then have "(map normalizeItem (map normalizeItem xs) = map normalizeItem xs) = list_all keyed xs"
      by (induction xs) auto
    with Some show ?thesis by (auto simp: js_or_absorb js_or_def)
  qed
qed

lemma normalize_fields:
  "item_text (normalizeItem (normalizeItem it)) = item_text (normalizeItem it)
   \<and> item_disabled (normalizeItem (normalizeItem it)) = item_disabled (normalizeItem it)
   \<and> item_selected (normalizeItem (normalizeItem it)) = item_selected (normalizeItem it)
   \<and> item_extra (normalizeItem (normalizeItem it)) = item_extra (normalizeItem it)"
  by (cases it) (simp add: js_or_absorb)

lemma map_normalize_keyed:
  "list_all keyed xs \<Longrightarrow> map normalizeItem (map normalizeItem xs) = map normalizeItem xs"
  by (induction xs) (auto simp: normalizeItem_fixed_iff)

text \<open>
  Claim C10, as the code has it. Normalising a normalised item gives an equal item when
  the item and every child below it has an \<open>id\<close> or a \<open>text\<close> that is not \<open>undefined\<close>;
  the same holds for the Item Store's normalisation applied to what the Remote Source has
  normalised, so \<open>setData\<close> stores such remote results as they are. For every item, the
  fields \<open>text\<close>, \<open>disabled\<close>, \<open>selected\<close> and the extra properties are unchanged by the
  second application.
\<close>

theorem normalizeItem_idempotent_keyed:
  "(keyed it \<longrightarrow> normalizeItem (normalizeItem it) = normalizeItem it
        \<and> normalizeItem (ajax_normalizeItem it) = ajax_normalizeItem it)
   \<and> (list_all keyed rs \<longrightarrow> data (setData (map ajax_normalizeItem rs) w) = map ajax_normalizeItem rs)
   \<and> item_text (normalizeItem (normalizeItem it)) = item_text (normalizeItem it)
   \<and> item_disabled (normalizeItem (normalizeItem it)) = item_disabled (normalizeItem it)
   \<and> item_selected (normalizeItem (normalizeItem it)) = item_selected (normalizeItem it)
   \<and> item_extra (normalizeItem (normalizeItem it)) = item_extra (normalizeItem it)"
proof -
  have a: "keyed it \<longrightarrow> normalizeItem (normalizeItem it) = normalizeItem it
        \<and> normalizeItem (ajax_normalizeItem it) = ajax_normalizeItem it"
    by (simp add: ajax_normalizeItem_eq normalizeItem_fixed_iff)
  have e: "ajax_normalizeItem = normalizeItem"
    by (rule ext) (rule ajax_normalizeItem_eq)
  have b: "list_all keyed rs \<longrightarrow>
      data (setData (map ajax_normalizeItem rs) w) = map ajax_normalizeItem rs"
    unfolding e by (simp add: setData_def emit_def Let_def map_normalize_keyed del: map_map)
  from a b normalize_fields [of it] show ?thesis by blast
qed

text \<open>The theorem at a group with one child, where the hypothesis holds.\<close>

theorem normalizeItem_idempotent_keyed_witness:
  "keyed (Item (JNum 7) JUndefined JUndefined JUndefined
      (Some [Item JUndefined (JStr ''c'') (JNum 1) JNull None [(''flag'', JStr ''x'')]]) [])
   \<and> normalizeItem (normalizeItem (Item (JNum 7) JUndefined JUndefined JUndefined
      (Some [Item JUndefined (JStr ''c'') (JNum 1) JNull None [(''flag'', JStr ''x'')]]) []))
     = Item (JNum 7) (JStr []) (JBool False) (JBool False)
      (Some [Item (JStr ''c'') (JStr ''c'') (JNum 1) (JBool False) None [(''flag'', JStr ''x'')]]) []"
proof -
  let ?x = "Item (JNum 7) JUndefined JUndefined JUndefined
      (Some [Item JUndefined (JStr ''c'') (JNum 1) JNull None [(''flag'', JStr ''x'')]]) []"
  have k: "keyed ?x" by simp
  with normalizeItem_idempotent_keyed [of ?x]
  have "normalizeItem (normalizeItem ?x) = normalizeItem ?x" by blast
  moreover have "normalizeItem ?x = Item (JNum 7) (JStr []) (JBool False) (JBool False)
      (Some [Item (JStr ''c'') (JStr ''c'') (JNum 1) (JBool False) None [(''flag'', JStr ''x'')]]) []"
    by (simp add: js_or_def)
  ultimately show ?thesis using k by simp
qed

text \<open>
  Claim C10 as stated fails at an object that has neither \<open>id\<close> nor \<open>text\<close>: the first
  pass leaves \<open>id\<close> undefined (it copies \<open>item.text\<close>) and sets \<open>text\<close> to the empty string,
  the second pass then copies that empty string into \<open>id\<close>.
\<close>

theorem normalizeItem_twice_counterexample:
  "normalizeItem (ajax_normalizeItem (Item JUndefined JUndefined JUndefined JUndefined None [(''name'', JStr ''x'')]))
     \<noteq> ajax_normalizeItem (Item JUndefined JUndefined JUndefined JUndefined None [(''name'', JStr ''x'')])
   \<and> item_id (ajax_normalizeItem (Item JUndefined JUndefined JUndefined JUndefined None [(''name'', JStr ''x'')])) = JUndefined
   \<and> item_id (normalizeItem (ajax_normalizeItem (Item JUndefined JUndefined JUndefined JUndefined None [(''name'', JStr ''x'')]))) = JStr []"
  by (simp add: js_or_def)


section \<open>Properties of the Item Store\<close>









lemma select_strictly_present:
  "multiple opts \<Longrightarrow> \<exists>x \<in> set (selection w). item_id x = item_id d \<Longrightarrow> select opts d w = (False, w)"
  by (simp add: select_def list_ex_iff)

text \<open>
  Claim C4, evaluated on the code. The ids \<open>"1"\<close> and \<open>1\<close> are the same identity under
  string normalisation, but \<open>select\<close> compares with \<open>===\<close>: with \<open>"1"\<close> selected, selecting
  the item with id \<open>1\<close> succeeds and the selection grows to two entries.
  (\<open>select_strictly_present\<close> is what the code does guarantee.)
\<close>

theorem select_number_after_string_id:
  "same_id (item_id one_num) (item_id one_str)
   \<and> fst (select multi_unlimited one_num (init\<lparr>selection := [one_str]\<rparr>)) = True
   \<and> current (snd (select multi_unlimited one_num (init\<lparr>selection := [one_str]\<rparr>))) = [one_str, one_num]"
proof -
  have "decimal (nat 1) = ''1''" by code_simp
  then have "same_id (item_id one_num) (item_id one_str)"
    by (simp add: same_id_def one_num_def one_str_def)
  then show ?thesis
    by (simp add: select_def selected_ok_def updateElement_def emit_def trigger_def Let_def
        current_def multi_unlimited_def init_def one_num_def one_str_def)
qed


section \<open>Properties of the Query Coordinator\<close>









lemmas coordinator_defs = updateWithAjax_def onResponse_def loadMore_def loadMoreTimeoutFires_def
  setData_def updateResults_def emit_def autoHighlightFirst_def highlight_def
  getFlatRenderedItems_def Let_def init_def

lemma shown_page_one_eq:
  "shown_page_one = init\<lparr>data := [it1], results := [it1], flatResults := [it1], highlightedIndex := 0,
      currentSearchTerm := ''x'', hasMore := True, accumulatedResults := [it1],
      currentSearchToken := Some 0, nextSymbol := 1,
      emitted := [Emit (DATA_LOADED [it1]), Emit (RESULTS [it1])]\<rparr>"
  by (simp add: shown_page_one_def page_one_def coordinator_defs it1_def js_or_def)

text \<open>
  Claim C5, evaluated on the code. \<open>isLoadingMore\<close> is cleared by a 500 ms timer, not by
  the response. With page 1 shown and more announced: \<open>loadMore\<close> asks for page 2; while
  the flag is set a second \<open>loadMore\<close> does nothing; once the timer has fired, with page 2
  still outstanding, \<open>loadMore\<close> asks for page 3. Page 2's response then carries a stale
  token and is dropped, and page 3 is appended directly after page 1.
\<close>

theorem load_more_before_previous_page_handled:
  "fst (loadMore remote_opts shown_page_one)
     = Some \<lparr>req_token = 1, req_term = ''x'', req_page = 2, req_append = True\<rparr>
   \<and> fst (loadMore remote_opts asked_page_two) = None
   \<and> fst (loadMore remote_opts timer_fired)
     = Some \<lparr>req_token = 2, req_term = ''x'', req_page = 3, req_append = True\<rparr>
   \<and> onResponse \<lparr>req_token = 1, req_term = ''x'', req_page = 2, req_append = True\<rparr> page_two
        asked_page_three = asked_page_three
   \<and> accumulatedResults (onResponse \<lparr>req_token = 2, req_term = ''x'', req_page = 3, req_append = True\<rparr>
        page_three asked_page_three) = [it1, it3]"
  unfolding asked_page_three_def timer_fired_def asked_page_two_def shown_page_one_eq
  by (simp add: page_two_def page_three_def remote_opts_def coordinator_defs)

text \<open>
  The guard of the second \<open>loadMore\<close> at the moment the timer has fired: the remote source
  is configured, more is announced, and the flag is clear, so page 3 is requested.
\<close>

theorem load_more_before_previous_page_handled_witness:
  "ajax remote_opts \<and> hasMore timer_fired \<and> \<not> isLoadingMore timer_fired
   \<and> currentSearchToken asked_page_three \<noteq> Some 1
   \<and> fst (loadMore remote_opts timer_fired)
     = Some \<lparr>req_token = 2, req_term = ''x'', req_page = 3, req_append = True\<rparr>"
proof -
  have g: "ajax remote_opts \<and> hasMore timer_fired \<and> \<not> isLoadingMore timer_fired"
    unfolding timer_fired_def asked_page_two_def shown_page_one_eq
    by (simp add: remote_opts_def coordinator_defs)
  have t: "currentSearchToken asked_page_three \<noteq> Some 1"
    unfolding asked_page_three_def timer_fired_def asked_page_two_def shown_page_one_eq
    by (simp add: remote_opts_def coordinator_defs)
  from load_more_before_previous_page_handled
  have "fst (loadMore remote_opts timer_fired)
     = Some \<lparr>req_token = 2, req_term = ''x'', req_page = 3, req_append = True\<rparr>"
    by blast
  with g t show ?thesis by blast
qed


section \<open>Properties of the search\<close>

lemma trim_nonempty: "trim term \<noteq> [] \<Longrightarrow> term \<noteq> []"
  by (auto simp: trim_def)

lemma filter_nonempty_iff: "(0 < length (filter P xs)) = (\<exists>x \<in> set xs. P x)"
  by (simp add: filter_empty_conv)

lemma search_step_keep: "search_step m t acc item = acc @ keep m t item"
  by (simp add: search_step_def keep_def Let_def filter_nonempty_iff del: length_greater_0_conv
      split: option.split)

lemma foldl_search_step: "foldl (search_step m t) acc items = acc @ concat (map (keep m t) items)"
  by (induction items arbitrary: acc) (simp_all add: search_step_keep)

lemma search_refines: "trim term \<noteq> [] \<Longrightarrow> search m items term = search_spec m items term"
  by (simp add: search_def search_spec_def foldl_search_step trim_nonempty)

lemma children_with_children: "item_children (with_children g cs) = Some cs"
  by (cases g) simp

lemma with_children_inj: "with_children g cs = with_children h ds \<Longrightarrow> cs = ds"
  by (cases g; cases h) simp

lemma keep_group_member:
  assumes "r \<in> set (keep m t h)" and "item_children r = Some cs'"
  shows "cs' \<noteq> [] \<and> (\<exists>cs. item_children h = Some cs \<and> cs' = filter (m t) cs \<and> r = with_children h cs')"
proof (cases "item_children h")
  case None
  with assms show ?thesis by (auto simp: keep_def split: if_splits)
next
  case (Some cs)
  with assms(1) have r: "r = with_children h (filter (m t) cs)" and ex: "\<exists>c \<in> set cs. m t c"
    by (auto simp: keep_def split: if_splits)
  from r assms(2) have "cs' = filter (m t) cs" by (simp add: children_with_children)
  moreover from ex have "filter (m t) cs \<noteq> []" by (simp add: filter_empty_conv)
  ultimately show ?thesis using Some r by simp
qed

lemma spec_group_members:
  assumes "r \<in> set (search_spec m items t)" and "item_children r = Some cs'"
  shows "cs' \<noteq> [] \<and> (\<exists>g \<in> set items. \<exists>cs. item_children g = Some cs \<and> cs' = filter (m t) cs
            \<and> r = with_children g cs')"
proof -
  from assms(1) obtain h where h: "h \<in> set items" "r \<in> set (keep m t h)"
    by (auto simp: search_spec_def)
  from keep_group_member [OF h(2) assms(2)] h(1) show ?thesis by blast
qed

lemma spec_group_included:
  assumes "g \<in> set items" and "item_children g = Some cs"
  shows "(with_children g (filter (m t) cs) \<in> set (search_spec m items t)) = (\<exists>c \<in> set cs. m t c)"
proof
  assume "with_children g (filter (m t) cs) \<in> set (search_spec m items t)"
  from spec_group_members [OF this children_with_children]
  have "filter (m t) cs \<noteq> []" by simp
  then show "\<exists>c \<in> set cs. m t c" by (simp add: filter_empty_conv)
next
  assume "\<exists>c \<in> set cs. m t c"
  with assms(2) have "keep m t g = [with_children g (filter (m t) cs)]" by (simp add: keep_def)
  with assms(1) show "with_children g (filter (m t) cs) \<in> set (search_spec m items t)"
    by (force simp: search_spec_def)
qed

lemma keep_relabel_group: "keep m t (relabel_group l it) = map (relabel_group l) (keep m t it)"
  by (cases it) (auto simp: keep_def relabel_group_def split: option.split)

lemma spec_relabel_group:
  "search_spec m (map (relabel_group l) items) t = map (relabel_group l) (search_spec m items t)"
  by (induction items) (simp_all add: search_spec_def keep_relabel_group)

text \<open>
  Claim C6, as the code has it. For every list of items and groups, every matcher and
  every term that is not empty after trimming: the fold of the source computes the
  filtering of the specification, in the original order; a group of the list is in the
  result, carrying exactly its matching children, if and only if one of its children
  matches; every group of the result has at least one child and comes from a group of the
  list in that way; and changing the groups' labels changes nothing but the labels of the
  result (the matcher is never applied to a group itself).
\<close>

theorem search_keeps_groups_with_matching_children:
  assumes "trim term \<noteq> []"
  shows "search matcher items term = search_spec matcher items term
    \<and> (\<forall>g \<in> set items. \<forall>cs. item_children g = Some cs \<longrightarrow>
          (with_children g (filter (matcher term) cs) \<in> set (search matcher items term))
            = (\<exists>c \<in> set cs. matcher term c))
    \<and> (\<forall>r \<in> set (search matcher items term). \<forall>cs'. item_children r = Some cs' \<longrightarrow>
          cs' \<noteq> [] \<and> (\<exists>g \<in> set items. \<exists>cs. item_children g = Some cs
              \<and> cs' = filter (matcher term) cs \<and> r = with_children g cs'))
    \<and> search matcher (map (relabel_group l) items) term
        = map (relabel_group l) (search matcher items term)"
proof -
  note r = search_refines [OF assms]
  have a: "\<forall>g \<in> set items. \<forall>cs. item_children g = Some cs \<longrightarrow>
          (with_children g (filter (matcher term) cs) \<in> set (search matcher items term))
            = (\<exists>c \<in> set cs. matcher term c)"
    unfolding r by (intro ballI allI impI) (rule spec_group_included)
  have b: "\<forall>r \<in> set (search matcher items term). \<forall>cs'. item_children r = Some cs' \<longrightarrow>
          cs' \<noteq> [] \<and> (\<exists>g \<in> set items. \<exists>cs. item_children g = Some cs
              \<and> cs' = filter (matcher term) cs \<and> r = with_children g cs')"
    unfolding r by (intro ballI allI impI) (rule spec_group_members)
  have c: "search matcher (map (relabel_group l) items) term
        = map (relabel_group l) (search matcher items term)"
    unfolding r by (rule spec_relabel_group)
  from r a b c show ?thesis by blast
qed

text \<open>
  The theorem on the example of the specification: of the children \<open>A\<close> and \<open>B\<close> only
  \<open>A\<close> matches, and the second group has no matching child (both groups are labelled
  with the term itself).
\<close>

theorem search_keeps_groups_with_matching_children_witness:
  "trim ''A'' \<noteq> []
   \<and> search exact_text [group_AB, group_C] ''A'' = [with_children group_AB [child_A]]
   \<and> group_C \<notin> set (search exact_text [group_AB, group_C] ''A'')"
proof -
  have h: "trim ''A'' \<noteq> []" by (simp add: trim_def is_space_def)
  from search_keeps_groups_with_matching_children [OF h, of exact_text "[group_AB, group_C]"]
  have "search exact_text [group_AB, group_C] ''A'' = search_spec exact_text [group_AB, group_C] ''A''"
    by blast
  also have "\<dots> = [with_children group_AB [child_A]]"
    by (simp add: search_spec_def keep_def exact_text_def group_AB_def group_C_def child_A_def
        child_B_def child_C_def)
  finally have s: "search exact_text [group_AB, group_C] ''A'' = [with_children group_AB [child_A]]" .
  have "group_C \<noteq> with_children group_AB [child_A]" by (simp add: group_AB_def group_C_def)
  with h s show ?thesis by simp
qed

text \<open>
  Claim C6 as stated ("every non-empty search term") fails at a term of one blank: it is
  not empty, but \<open>search\<close> returns the list unfiltered when \<open>term.trim()\<close> is empty, so a
  group none of whose children the matcher accepts is in the result.
\<close>

theorem search_blank_term_counterexample:
  "'' '' \<noteq> [] \<and> \<not> (\<exists>c \<in> set [child_C]. exact_text '' '' c)
   \<and> item_children group_C = Some [child_C]
   \<and> group_C \<in> set (search exact_text [group_AB, group_C] '' '')"
  by (simp add: search_def trim_def is_space_def exact_text_def group_C_def child_C_def)


section \<open>Properties of tagging\<close>

lemma map_of_assign: "map_of (assign k v ps) k = Some v"
  by (induction ps) auto

lemma get_set_prop: "get_prop k (set_prop k v it) = v"
  by (cases it) (simp add: map_of_assign)

lemma set_prop_fields:
  "item_id (set_prop k v it) = item_id it \<and> item_text (set_prop k v it) = item_text it"
  by (cases it) simp

lemma results_updateWithLocalData:
  "results (updateWithLocalData opts m ct ins term w) = localResults opts m ct ins (data w) term"
  by (simp add: updateWithLocalData_def Let_def emit_def updateResults_def autoHighlightFirst_def
      highlight_def query_def split: option.split)

lemma flatResults_updateWithLocalData:
  "flatResults (updateWithLocalData opts m ct ins term w)
     = getFlatRenderedItems (localResults opts m ct ins (data w) term)"
  by (simp add: updateWithLocalData_def Let_def emit_def updateResults_def autoHighlightFirst_def
      highlight_def query_def split: option.split)

text \<open>
  What the code does in local mode with tagging enabled, for a term \<open>t\<close> that is not empty
  and not empty after trimming, when the tag factory, called with the trimmed term,
  returns the candidate \<open>tag\<close>. The test for an id that is present runs over the elements
  of the filtered array: an ungrouped item, or a group with the group's own id; the
  children of a group are not looked at. If the candidate's id is, as a lower-cased
  string, the id of none of these elements, the displayed list is the filtered list as
  the caller's \<open>insertTag\<close> left it, and the inserted candidate carries \<open>_isTag = true\<close> and
  the candidate's id and text; with the default \<open>insertTag\<close> it is the first entry, before
  the filtered ones. If an element shares the id, the displayed list is the filtered list
  and nothing is inserted. Without a Remote Source, \<open>update(term)\<close> is this operation.
  (Ids that are numbers are meant below \<open>10^21\<close>, where \<open>String\<close> prints plain digits.)
\<close>

lemma tag_by_top_level_ids:
  assumes "tags opts" and "t \<noteq> []" and "trim t \<noteq> []"
    and "createTag (trim t) = Some tag"
  shows
    "((\<forall>e \<in> set (search matcher (data w) t).
          toLowerCase (js_String (item_id e)) \<noteq> toLowerCase (js_String (item_id tag)))
        \<longrightarrow> results (updateWithLocalData opts matcher createTag insertTag t w)
              = map (resolve (set_prop ''_isTag'' (JBool True) tag))
                  (insertTag (map Entry (search matcher (data w) t)) tag)
          \<and> results (updateWithLocalData opts matcher createTag default_insertTag t w)
              = set_prop ''_isTag'' (JBool True) tag # search matcher (data w) t
          \<and> get_prop ''_isTag'' (resolve (set_prop ''_isTag'' (JBool True) tag) TagRef) = JBool True
          \<and> item_id (resolve (set_prop ''_isTag'' (JBool True) tag) TagRef) = item_id tag
          \<and> item_text (resolve (set_prop ''_isTag'' (JBool True) tag) TagRef) = item_text tag)
     \<and> ((\<exists>e \<in> set (search matcher (data w) t).
          toLowerCase (js_String (item_id e)) = toLowerCase (js_String (item_id tag)))
        \<longrightarrow> results (updateWithLocalData opts matcher createTag insertTag t w)
              = search matcher (data w) t)
     \<and> (\<not> ajax opts \<longrightarrow> snd (update opts matcher createTag insertTag t w)
              = updateWithLocalData opts matcher createTag insertTag t w)"
proof (intro conjI impI)
  assume n: "\<forall>e \<in> set (search matcher (data w) t).
          toLowerCase (js_String (item_id e)) \<noteq> toLowerCase (js_String (item_id tag))"
  with assms show "results (updateWithLocalData opts matcher createTag insertTag t w)
              = map (resolve (set_prop ''_isTag'' (JBool True) tag))
                  (insertTag (map Entry (search matcher (data w) t)) tag)"
    by (simp add: results_updateWithLocalData localResults_def Let_def list_ex_iff)
  from assms n show "results (updateWithLocalData opts matcher createTag default_insertTag t w)
              = set_prop ''_isTag'' (JBool True) tag # search matcher (data w) t"
    by (simp add: results_updateWithLocalData localResults_def Let_def list_ex_iff
        default_insertTag_def resolve_def comp_def)
  show "get_prop ''_isTag'' (resolve (set_prop ''_isTag'' (JBool True) tag) TagRef) = JBool True"
    by (simp add: resolve_def get_set_prop)
  show "item_id (resolve (set_prop ''_isTag'' (JBool True) tag) TagRef) = item_id tag"
    by (simp add: resolve_def set_prop_fields)
  show "item_text (resolve (set_prop ''_isTag'' (JBool True) tag) TagRef) = item_text tag"
    by (simp add: resolve_def set_prop_fields)
next
  assume "\<exists>e \<in> set (search matcher (data w) t).
          toLowerCase (js_String (item_id e)) = toLowerCase (js_String (item_id tag))"
  with assms show "results (updateWithLocalData opts matcher createTag insertTag t w)
              = search matcher (data w) t"
    by (auto simp: results_updateWithLocalData localResults_def Let_def list_ex_iff)
next
  assume "\<not> ajax opts"
  then show "snd (update opts matcher createTag insertTag t w)
              = updateWithLocalData opts matcher createTag insertTag t w"
    by (simp add: update_def)
qed

text \<open>
  On a flat list (term \<open>new\<close>, default factory): with no entry of id \<open>new\<close> the tag comes
  first and is marked; with an entry of id \<open>NEW\<close> nothing is inserted.
\<close>

lemma tag_by_top_level_ids_example:
  "tags tag_opts \<and> trim ''new'' = ''new'' \<and> default_createTag ''new'' = Some tag_new
   \<and> results (updateWithLocalData tag_opts exact_text default_createTag default_insertTag ''new''
        (init\<lparr>data := [item_x]\<rparr>))
      = [Item (JStr ''new'') (JStr ''new'') JUndefined JUndefined None [(''_isTag'', JBool True)],
         item_x]
   \<and> results (updateWithLocalData tag_opts exact_text default_createTag default_insertTag ''new''
        (init\<lparr>data := [item_x, item_NEW]\<rparr>))
      = [item_x, item_NEW]"
proof -
  let ?w1 = "init\<lparr>data := [item_x]\<rparr>" and ?w2 = "init\<lparr>data := [item_x, item_NEW]\<rparr>"
  have h1: "tags tag_opts" by (simp add: tag_opts_def)
  have h2: "''new'' \<noteq> []" by simp
  have t: "trim ''new'' = ''new''" by (simp add: trim_def is_space_def)
  then have h3: "trim ''new'' \<noteq> []" by simp
  have c: "default_createTag ''new'' = Some tag_new"
    by (simp add: default_createTag_def t tag_new_def Let_def)
  then have h4: "default_createTag (trim ''new'') = Some tag_new" by (simp add: t)
  have s1: "search exact_text (data ?w1) ''new'' = [item_x]"
    by (simp add: search_def t search_step_def exact_text_def item_x_def)
  have s2: "search exact_text (data ?w2) ''new'' = [item_x, item_NEW]"
    by (simp add: search_def t search_step_def exact_text_def item_x_def item_NEW_def)
  have l: "toLowerCase ''NEW'' = ''new''" "toLowerCase ''new'' = ''new''" "toLowerCase ''x'' = ''x''"
    by code_simp+
  have n1: "\<forall>e \<in> set (search exact_text (data ?w1) ''new'').
      toLowerCase (js_String (item_id e)) \<noteq> toLowerCase (js_String (item_id tag_new))"
    unfolding s1 by (simp add: item_x_def tag_new_def l)
  have n2: "\<exists>e \<in> set (search exact_text (data ?w2) ''new'').
      toLowerCase (js_String (item_id e)) = toLowerCase (js_String (item_id tag_new))"
    unfolding s2 by (simp add: item_NEW_def tag_new_def l)
  note th1 = tag_by_top_level_ids [where opts = tag_opts and t = "''new''"
      and createTag = default_createTag and tag = tag_new and matcher = exact_text and w = ?w1
      and insertTag = default_insertTag, OF h1 h2 h3 h4]
  note th2 = tag_by_top_level_ids [where opts = tag_opts and t = "''new''"
      and createTag = default_createTag and tag = tag_new and matcher = exact_text and w = ?w2
      and insertTag = default_insertTag, OF h1 h2 h3 h4]
  from th1 n1 have "results (updateWithLocalData tag_opts exact_text default_createTag
        default_insertTag ''new'' ?w1)
      = set_prop ''_isTag'' (JBool True) tag_new # search exact_text (data ?w1) ''new''"
    by blast
  then have r1: "results (updateWithLocalData tag_opts exact_text default_createTag
        default_insertTag ''new'' ?w1)
      = [Item (JStr ''new'') (JStr ''new'') JUndefined JUndefined None [(''_isTag'', JBool True)],
         item_x]"
    unfolding s1 by (simp add: tag_new_def)
  from th2 n2 have "results (updateWithLocalData tag_opts exact_text default_createTag
        default_insertTag ''new'' ?w2) = search exact_text (data ?w2) ''new''"
    by blast
  then have r2: "results (updateWithLocalData tag_opts exact_text default_createTag
        default_insertTag ''new'' ?w2) = [item_x, item_NEW]"
    unfolding s2 .
  from h1 t c r1 r2 show ?thesis by blast
qed


text \<open>
  Claim C8, evaluated on the code. The term is \<open>new\<close> and the factory returns the tag of
  id \<open>new\<close>. First, the filtered list holds a group whose child has the id \<open>new\<close>: the
  test looks at the group's id only, finds no clash, and the tag is inserted, so that
  the rendered list has two entries of id \<open>new\<close>. Second, the data is a group without an
  id and labelled \<open>new\<close>, whose child has the id \<open>x\<close>: normalisation gives the group its
  label as id, the test takes that for a clash, and no tag is inserted although no item
  of the list has the id \<open>new\<close>.
\<close>

theorem tag_check_skips_group_children:
  "default_createTag (trim ''new'') = Some tag_new
   \<and> item_id child_new = item_id tag_new
   \<and> search exact_text [group_of_new] ''new'' = [group_of_new]
   \<and> results (updateWithLocalData tag_opts exact_text default_createTag default_insertTag ''new''
        (init\<lparr>data := [group_of_new]\<rparr>))
      = [set_prop ''_isTag'' (JBool True) tag_new, group_of_new]
   \<and> map item_id (flatResults (updateWithLocalData tag_opts exact_text default_createTag
        default_insertTag ''new'' (init\<lparr>data := [group_of_new]\<rparr>)))
      = [JStr ''new'', JStr ''new'']
   \<and> data (setData [group_labelled_new] init) = [normalizeItem group_labelled_new]
   \<and> item_id (normalizeItem group_labelled_new) = JStr ''new''
   \<and> results (updateWithLocalData tag_opts exact_text default_createTag default_insertTag ''new''
        (setData [group_labelled_new] init))
      = [normalizeItem group_labelled_new]
   \<and> map item_id (flatResults (updateWithLocalData tag_opts exact_text default_createTag
        default_insertTag ''new'' (setData [group_labelled_new] init)))
      = [JStr ''x'']"
proof -
  let ?w1 = "init\<lparr>data := [group_of_new]\<rparr>" and ?w2 = "setData [group_labelled_new] init"
  have t: "trim ''new'' = ''new''" by (simp add: trim_def is_space_def)
  have c: "default_createTag (trim ''new'') = Some tag_new"
    by (simp add: default_createTag_def t tag_new_def Let_def)
  have i: "item_id child_new = item_id tag_new" by (simp add: child_new_def tag_new_def)
  have l: "toLowerCase ''new'' = ''new''" "toLowerCase ''g1'' = ''g1''"
    by code_simp+
  have s1: "search exact_text [group_of_new] ''new'' = [group_of_new]"
    by (simp add: search_def t search_step_def exact_text_def group_of_new_def child_new_def)
  have n: "normalizeItem group_labelled_new
      = Item (JStr ''new'') (JStr ''new'') (JBool False) (JBool False) (Some [item_x]) []"
    by (simp add: group_labelled_new_def item_x_def js_or_def)
  have d2: "data ?w2 = [normalizeItem group_labelled_new]"
    by (simp add: setData_def emit_def Let_def init_def)
  have s2: "search exact_text (data ?w2) ''new'' = [normalizeItem group_labelled_new]"
    unfolding d2 n by (simp add: search_def t search_step_def exact_text_def item_x_def)
  have r1: "localResults tag_opts exact_text default_createTag default_insertTag [group_of_new] ''new''
      = [set_prop ''_isTag'' (JBool True) tag_new, group_of_new]"
    unfolding localResults_def s1 c
    by (simp add: t tag_opts_def l default_insertTag_def resolve_def group_of_new_def
        tag_new_def)
  have r2: "localResults tag_opts exact_text default_createTag default_insertTag (data ?w2) ''new''
      = [normalizeItem group_labelled_new]"
    unfolding localResults_def s2 c
    by (simp add: t tag_opts_def n tag_new_def l)
  have u1: "results (updateWithLocalData tag_opts exact_text default_createTag default_insertTag
        ''new'' ?w1) = [set_prop ''_isTag'' (JBool True) tag_new, group_of_new]"
    by (simp add: results_updateWithLocalData r1)
  have u2: "results (updateWithLocalData tag_opts exact_text default_createTag default_insertTag
        ''new'' ?w2) = [normalizeItem group_labelled_new]"
    by (simp add: results_updateWithLocalData r2)
  have f1: "map item_id (flatResults (updateWithLocalData tag_opts exact_text default_createTag
        default_insertTag ''new'' ?w1)) = [JStr ''new'', JStr ''new'']"
    by (simp add: flatResults_updateWithLocalData r1 getFlatRenderedItems_def)
      (simp add: group_of_new_def tag_new_def child_new_def)
  have f2: "map item_id (flatResults (updateWithLocalData tag_opts exact_text default_createTag
        default_insertTag ''new'' ?w2)) = [JStr ''x'']"
    by (simp add: flatResults_updateWithLocalData r2 getFlatRenderedItems_def n item_x_def)
  from n have g: "item_id (normalizeItem group_labelled_new) = JStr ''new''" by simp
  from c i s1 u1 f1 d2 g u2 f2 show ?thesis by blast
qed


section \<open>Properties of the navigation\<close>

lemma wrapAround_range: "0 < tot \<Longrightarrow> 0 \<le> wrapAround tot n \<and> wrapAround tot n < tot"
  by (simp add: wrapAround_def)

lemma stuck_disabledAt:
  assumes "stuck rendered tot cur new"
  shows "disabledAt rendered new"
proof -
  from assms have a: "list_all (\<lambda>x. truthy (item_disabled x)) rendered"
    and b: "0 \<le> new" and c: "new < int (length rendered)"
    unfolding stuck_def by blast+
  from b c have "nat new < length rendered" by simp
  with a have "truthy (item_disabled (rendered ! nat new))" by (simp add: list_all_length)
  with b c show ?thesis by (simp add: disabledAt_def)
qed

lemma stuck_step:
  assumes "stuck rendered tot cur new"
  shows "stuck rendered tot cur (wrapAround tot (new + direction))
     \<and> wrapAround tot (new + direction) \<noteq> cur"
proof -
  from assms have "0 < tot" unfolding stuck_def by blast
  then have "0 \<le> wrapAround tot (new + direction) \<and> wrapAround tot (new + direction) < tot"
    by (rule wrapAround_range)
  with assms show ?thesis unfolding stuck_def by auto
qed

lemma skipDisabled_step:
  assumes IH: "\<And>rendered tot direction cur new y.
      f rendered tot direction cur new = Some y \<Longrightarrow> \<not> stuck rendered tot cur new"
    and body: "(if disabledAt rendered new then
        (if wrapAround tot (new + direction) = cur then Some Return
         else f rendered tot direction cur (wrapAround tot (new + direction)))
      else Some (Exit new)) = Some y"
  shows "\<not> stuck rendered tot cur new"
proof
  assume s: "stuck rendered tot cur new"
  from s have d: "disabledAt rendered new" by (rule stuck_disabledAt)
  from stuck_step [OF s, of direction]
  have s': "stuck rendered tot cur (wrapAround tot (new + direction))"
    and ne: "wrapAround tot (new + direction) \<noteq> cur" by simp_all
  from body d ne have "f rendered tot direction cur (wrapAround tot (new + direction)) = Some y"
    by simp
  then have "\<not> stuck rendered tot cur (wrapAround tot (new + direction))" by (rule IH)
  with s' show False by (rule notE [rotated])
qed

lemma skipDisabled_returns_not_stuck:
  "skipDisabled rendered tot direction cur new = Some y \<Longrightarrow> \<not> stuck rendered tot cur new"
  by (rule skipDisabled.raw_induct
      [where P = "\<lambda>rendered tot direction cur new y. \<not> stuck rendered tot cur new"])
    (rule skipDisabled_step)

lemma skipDisabled_diverges:
  assumes "stuck rendered tot cur new"
  shows "skipDisabled rendered tot direction cur new = None"
proof (cases "skipDisabled rendered tot direction cur new")
  case None
  then show ?thesis .
next
  case (Some y)
  then have "\<not> stuck rendered tot cur new" by (rule skipDisabled_returns_not_stuck)
  with assms show ?thesis by (rule notE [rotated])
qed

text \<open>
  Claim C9, evaluated on the code. A list whose only entry is disabled has just been
  rendered, so nothing is highlighted (\<open>highlightedIndex = - 1\<close>). A move, down or up,
  enters the loop that skips disabled entries; its exit test compares the index with
  \<open>currentIndex\<close>, which no index of the list equals: the move never returns.
  (\<open>skipDisabled_diverges\<close> shows this for every list of disabled entries and every
  direction.)
\<close>

theorem navigate_all_disabled_never_returns:
  "highlightedIndex all_disabled = - 1
   \<and> list_all (\<lambda>x. truthy (item_disabled x)) (flatResults all_disabled)
   \<and> navigate 1 all_disabled = None \<and> navigate (- 1) all_disabled = None"
proof -
  have f: "getFlatRenderedItems [disabled_a] = [disabled_a]"
    by (simp add: getFlatRenderedItems_def disabled_a_def)
  have c: "countTotalItems [disabled_a] = 1"
    by (simp add: countTotalItems_def disabled_a_def)
  have "stuck [disabled_a] 1 (- 1) 0"
    by (simp add: stuck_def disabled_a_def)
  then have s: "skipDisabled [disabled_a] 1 direction (- 1) 0 = None" for direction
    by (rule skipDisabled_diverges)
  have r: "results all_disabled = [disabled_a]" "highlightedIndex all_disabled = - 1"
    "flatResults all_disabled = [disabled_a]"
    by (simp_all add: all_disabled_def updateResults_def f)
  have n1: "navigate 1 all_disabled = None"
    by (simp add: navigate_def r f c wrapAround_def s)
  have n2: "navigate (- 1) all_disabled = None"
    by (simp add: navigate_def r f c wrapAround_def s)
  have l: "list_all (\<lambda>x. truthy (item_disabled x)) (flatResults all_disabled)"
    unfolding r by (simp add: disabled_a_def)
  from r(2) l n1 n2 show ?thesis by simp
qed

text \<open>With the highlight on the entry itself the same move does return, as a no-op.\<close>

lemma skipDisabled_in_range_example: "skipDisabled [disabled_a] 1 1 0 0 = Some Return"
  by (subst skipDisabled.simps) (simp add: disabledAt_def disabled_a_def wrapAround_def)


text \<open>
  What the loop does guarantee. With the highlight on an entry of the list, a move down or
  up returns; a move that changes the state lands on an entry that is not disabled; and
  when every entry is disabled it is a no-op.
\<close>

lemma skipDisabled_down_returns:
  assumes "0 \<le> cur" and "cur < tot"
  shows "0 \<le> new \<Longrightarrow> new < tot \<Longrightarrow>
     nat (if new < cur then cur - new else cur - new + tot) = k \<Longrightarrow>
     \<exists>y. skipDisabled rendered tot 1 cur new = Some y"
proof (induction k arbitrary: new rule: less_induct)
  case (less k)
  show ?case
  proof (cases "disabledAt rendered new")
    case False
    then show ?thesis by (subst skipDisabled.simps) simp
  next
    case True
    let ?n = "wrapAround tot (new + 1)"
    show ?thesis
    proof (cases "?n = cur")
      case same: True
      with True show ?thesis by (subst skipDisabled.simps) simp
    next
      case diff: False
      from less.prems assms have r: "0 \<le> ?n" "?n < tot" by (simp_all add: wrapAround_def)
      from less.prems assms diff
      have "nat (if ?n < cur then cur - ?n else cur - ?n + tot) < k"
        by (auto simp: wrapAround_def split: if_splits)
      from less.IH [OF this r refl] obtain y where "skipDisabled rendered tot 1 cur ?n = Some y" ..
      with True diff show ?thesis by (subst skipDisabled.simps) simp
    qed
  qed
qed

lemma skipDisabled_up_returns:
  assumes "0 \<le> cur" and "cur < tot"
  shows "0 \<le> new \<Longrightarrow> new < tot \<Longrightarrow>
     nat (if cur < new then new - cur else new - cur + tot) = k \<Longrightarrow>
     \<exists>y. skipDisabled rendered tot (- 1) cur new = Some y"
proof (induction k arbitrary: new rule: less_induct)
  case (less k)
  show ?case
  proof (cases "disabledAt rendered new")
    case False
    then show ?thesis by (subst skipDisabled.simps) simp
  next
    case True
    let ?n = "wrapAround tot (new + - 1)"
    show ?thesis
    proof (cases "?n = cur")
      case same: True
      with True show ?thesis by (subst skipDisabled.simps) simp
    next
      case diff: False
      from less.prems assms have r: "0 \<le> ?n" "?n < tot" by (simp_all add: wrapAround_def)
      from less.prems assms diff
      have "nat (if cur < ?n then ?n - cur else ?n - cur + tot) < k"
        by (auto simp: wrapAround_def split: if_splits)
      from less.IH [OF this r refl] obtain y where "skipDisabled rendered tot (- 1) cur ?n = Some y" ..
      with True diff show ?thesis by (subst skipDisabled.simps) simp
    qed
  qed
qed

lemma flat_fold:
  "foldl (\<lambda>flat item. case item_children item of Some cs \<Rightarrow> flat @ cs | None \<Rightarrow> flat @ [item]) acc rs
     = acc @ concat (map (\<lambda>item. case item_children item of Some cs \<Rightarrow> cs | None \<Rightarrow> [item]) rs)"
  by (induction rs arbitrary: acc) (simp_all split: option.split)

lemma count_fold:
  "foldl (\<lambda>count item. case item_children item of Some cs \<Rightarrow> count + length cs | None \<Rightarrow> count + 1) n rs
     = n + length (concat (map (\<lambda>item. case item_children item of Some cs \<Rightarrow> cs | None \<Rightarrow> [item]) rs))"
  by (induction rs arbitrary: n) (simp_all split: option.split)

lemma countTotalItems_flat: "countTotalItems rs = length (getFlatRenderedItems rs)"
  by (simp add: countTotalItems_def getFlatRenderedItems_def flat_fold count_fold)

lemma skipDisabled_exit_enabled:
  "skipDisabled rendered tot direction cur new = Some (Exit k) \<Longrightarrow> \<not> disabledAt rendered k"
proof -
  have "skipDisabled rendered tot direction cur new = Some y \<Longrightarrow>
      (\<forall>k. y = Exit k \<longrightarrow> \<not> disabledAt rendered k)" for y
    by (rule skipDisabled.raw_induct
        [where P = "\<lambda>rendered tot direction cur new y. \<forall>k. y = Exit k \<longrightarrow> \<not> disabledAt rendered k"])
      (auto split: if_splits)
  then show "skipDisabled rendered tot direction cur new = Some (Exit k) \<Longrightarrow> \<not> disabledAt rendered k"
    by blast
qed

lemma skipDisabled_exit_range:
  "skipDisabled rendered tot direction cur new = Some (Exit k) \<Longrightarrow>
     0 < tot \<Longrightarrow> 0 \<le> new \<Longrightarrow> new < tot \<Longrightarrow> 0 \<le> k \<and> k < tot"
proof -
  have "skipDisabled rendered tot direction cur new = Some y \<Longrightarrow>
      (\<forall>k. y = Exit k \<longrightarrow> 0 < tot \<longrightarrow> 0 \<le> new \<longrightarrow> new < tot \<longrightarrow> 0 \<le> k \<and> k < tot)" for y
    by (rule skipDisabled.raw_induct
        [where P = "\<lambda>rendered tot direction cur new y.
            \<forall>k. y = Exit k \<longrightarrow> 0 < tot \<longrightarrow> 0 \<le> new \<longrightarrow> new < tot \<longrightarrow> 0 \<le> k \<and> k < tot"])
      (auto simp: wrapAround_def split: if_splits)
  then show "skipDisabled rendered tot direction cur new = Some (Exit k) \<Longrightarrow>
     0 < tot \<Longrightarrow> 0 \<le> new \<Longrightarrow> new < tot \<Longrightarrow> 0 \<le> k \<and> k < tot"
    by blast
qed

lemma navigate_returns_when_highlighted:
  assumes "0 \<le> highlightedIndex w" and "highlightedIndex w < int (countTotalItems (results w))"
    and "direction = 1 \<or> direction = - 1"
  shows "\<exists>w'. navigate direction w = Some w'"
proof -
  let ?tot = "int (countTotalItems (results w))" and ?cur = "highlightedIndex w"
  let ?new = "wrapAround ?tot (?cur + direction)"
  from assms have t: "0 < ?tot" by simp
  then have r: "0 \<le> ?new" "?new < ?tot" by (simp_all add: wrapAround_def)
  have "\<exists>y. skipDisabled (getFlatRenderedItems (results w)) ?tot direction ?cur ?new = Some y"
  proof (cases "direction = 1")
    case True
    with skipDisabled_down_returns [OF assms(1,2) r refl] show ?thesis by simp
  next
    case False
    with assms(3) have "direction = - 1" by simp
    with skipDisabled_up_returns [OF assms(1,2) r refl] show ?thesis by simp
  qed
  then obtain y where "skipDisabled (getFlatRenderedItems (results w)) ?tot direction ?cur ?new = Some y" ..
  with t show ?thesis by (cases y) (simp_all add: navigate_def Let_def)
qed

lemma navigate_lands_on_enabled:
  assumes "navigate direction w = Some w'" and "w' \<noteq> w"
  shows "\<not> disabledAt (getFlatRenderedItems (results w)) (highlightedIndex w')"
proof -
  let ?tot = "int (countTotalItems (results w))" and ?cur = "highlightedIndex w"
  let ?new = "wrapAround ?tot (?cur + direction)"
  let ?r = "getFlatRenderedItems (results w)"
  have t: "?tot \<noteq> 0"
  proof
    assume "?tot = 0"
    with assms(1) have "w' = w" by (simp add: navigate_def Let_def)
    with assms(2) show False by simp
  qed
  with assms obtain y where y: "skipDisabled ?r ?tot direction ?cur ?new = Some y"
    by (cases "skipDisabled ?r ?tot direction ?cur ?new") (auto simp: navigate_def Let_def)
  with assms t obtain k where k: "y = Exit k" "w' = highlight k w"
    by (cases y) (auto simp: navigate_def Let_def)
  from y k have "\<not> disabledAt ?r k" by (simp add: skipDisabled_exit_enabled)
  moreover from k assms(2) have "highlightedIndex w' = k"
    by (auto simp: highlight_def split: if_splits)
  ultimately show ?thesis by simp
qed

lemma navigate_all_disabled_noop:
  assumes "list_all (\<lambda>x. truthy (item_disabled x)) (getFlatRenderedItems (results w))"
    and "0 \<le> highlightedIndex w" and "highlightedIndex w < int (countTotalItems (results w))"
    and "direction = 1 \<or> direction = - 1"
  shows "navigate direction w = Some w"
proof -
  let ?tot = "int (countTotalItems (results w))" and ?cur = "highlightedIndex w"
  let ?new = "wrapAround ?tot (?cur + direction)"
  let ?r = "getFlatRenderedItems (results w)"
  from navigate_returns_when_highlighted [OF assms(2,3,4)]
  obtain w' where w': "navigate direction w = Some w'" ..
  from assms have t: "0 < ?tot" by simp
  then have r: "0 \<le> ?new" "?new < ?tot" by (simp_all add: wrapAround_def)
  from w' t obtain y where y: "skipDisabled ?r ?tot direction ?cur ?new = Some y"
    by (cases "skipDisabled ?r ?tot direction ?cur ?new") (auto simp: navigate_def Let_def)
  have "y = Return"
  proof (cases y)
    case Return
    then show ?thesis .
  next
    case (Exit k)
    with y have e: "\<not> disabledAt ?r k" by (simp add: skipDisabled_exit_enabled)
    from y Exit skipDisabled_exit_range [OF _ t r] have "0 \<le> k \<and> k < ?tot" by blast
    then have kr: "0 \<le> k" "k < int (length ?r)"
      by (simp_all add: countTotalItems_flat)
    then have "nat k < length ?r" by linarith
    with assms(1) kr have "disabledAt ?r k" by (simp add: disabledAt_def list_all_length)
    with e show ?thesis by simp
  qed
  with y t show ?thesis by (simp add: navigate_def Let_def)
qed


section \<open>Properties of the Remote Source\<close>

lemma onRejected_named:
  "onRejected t page (Thrown n) a =
     (Inr empty_response,
      if n \<noteq> JStr ''AbortError''
      then a\<lparr>currentRequest := None,
             sent := sent a @ [Emit (AJAX_ERROR (Thrown n) t page),
                               Trigger (AJAX_ERROR (Thrown n) t page)]\<rparr>
      else a\<lparr>currentRequest := None\<rparr>)"
  by (simp add: onRejected_def announce_def Let_def)

lemma query_settle_rejected_named:
  "fst (query_settle c pr t page (Rejected (Thrown n)) a) = Fulfilled empty_response"
  by (simp add: query_settle_def promise_then_def promise_catch_def onRejected_named)

lemma onFulfilled_throws_named:
  "onFulfilled c pr t page raw a = (Inl e, a') \<Longrightarrow>
     (\<exists>n. e = Thrown n) \<or> pr raw = Inl ThrownNullish"
  by (cases e) (auto simp: onFulfilled_def Let_def TypeError_def announce_def
      split: sum.splits option.splits if_splits)

lemma query_settle_resolves:
  assumes "outcome \<noteq> Rejected ThrownNullish" and "\<And>raw. pr raw \<noteq> Inl ThrownNullish"
  shows "\<exists>r. fst (query_settle c pr t page outcome a) = Fulfilled r"
proof (cases outcome)
  case (Rejected e)
  with assms(1) obtain n where "e = Thrown n" by (cases e) auto
  with Rejected show ?thesis by (simp add: query_settle_rejected_named)
next
  case (Fulfilled raw)
  obtain res a' where o: "onFulfilled c pr t page raw a = (res, a')" by (cases "onFulfilled c pr t page raw a")
  show ?thesis
  proof (cases res)
    case (Inr v)
    with Fulfilled o show ?thesis
      by (simp add: query_settle_def promise_then_def promise_catch_def)
  next
    case (Inl e)
    with o onFulfilled_throws_named [of c pr t page raw a e a'] assms(2) [of raw]
    obtain n where "e = Thrown n" by auto
    with Fulfilled o Inl show ?thesis
      by (simp add: query_settle_def promise_then_def promise_catch_def onRejected_named)
  qed
qed

text \<open>
  Claim C7, evaluated on the code. When the transport's promise is rejected without a
  reason (\<open>undefined\<close>, or \<open>null\<close>), the \<open>catch\<close> callback throws on \<open>error.name\<close> and the
  promise returned by \<open>query\<close> is rejected with that \<open>TypeError\<close>. With a reason that has
  a name it is fulfilled with the empty result, and the error event is sent unless the
  name is \<open>AbortError\<close>. (\<open>query_settle_resolves\<close>: the promise is fulfilled for every
  outcome in which nothing null or undefined is thrown.)
\<close>

theorem query_rejects_on_nullish_reason:
  "query_settle False no_results ''a'' 1 (Rejected ThrownNullish) in_flight
     = (Rejected TypeError, in_flight\<lparr>currentRequest := None\<rparr>)
   \<and> query_settle False no_results ''a'' 1 (Rejected (Thrown (JStr ''NetworkError''))) in_flight
     = (Fulfilled empty_response,
        in_flight\<lparr>currentRequest := None,
             sent := [Emit (AJAX_ERROR (Thrown (JStr ''NetworkError'')) ''a'' 1),
                      Trigger (AJAX_ERROR (Thrown (JStr ''NetworkError'')) ''a'' 1)]\<rparr>)
   \<and> query_settle False no_results ''a'' 1 (Rejected (Thrown (JStr ''AbortError''))) in_flight
     = (Fulfilled empty_response, in_flight\<lparr>currentRequest := None\<rparr>)"
  by (simp add: query_settle_def promise_then_def promise_catch_def onRejected_def announce_def
      Let_def in_flight_def)

text \<open>
  A pending promise that has no \<open>abort\<close> method, as a caller's transport may return, makes
  the next \<open>query\<close> throw before it returns a promise.
\<close>

lemma query_dispatch_without_abort:
  "query_dispatch False p ''b'' 1 (in_flight\<lparr>currentRequest := Some (Promise False)\<rparr>)
     = (Inl TypeError, in_flight\<lparr>currentRequest := Some (Promise False)\<rparr>)"
  by (simp add: query_dispatch_def in_flight_def)


end
